theory Spec2Isabelle
  imports Complex_Main
begin

section \<open>Sales forecasting: the synthetic series generator and the forecaster\<close>

text \<open>
  The development embeds \<^verbatim>\<open>generate_time_series_data\<close> and \<^verbatim>\<open>perform_forecast\<close>
  (with its route \<^verbatim>\<open>forecast\<close>) of \<^verbatim>\<open>app.py\<close> and \<^verbatim>\<open>generate_sales_data\<close> of
  \<^verbatim>\<open>dataset_generator.py\<close>.

  Conventions of the embedding:
  \<^item> numpy's float64 arithmetic is read as exact arithmetic on \<^typ>\<open>real\<close>: no rounding
    error is modelled, the infinities have no counterpart, and NaN appears only as the
    mean of an empty array;
  \<^item> a Python exception is a value \<open>Inl e\<close> of the result type;
  \<^item> the global random state \<^verbatim>\<open>np.random\<close> is an explicit value of type \<open>rng\<close> that
    every sampling call consumes and returns;
  \<^item> the calls into pandas, numpy and statsmodels are modelled by their documented
    behaviour; each such definition says which call it stands for.
\<close>

subsection \<open>Python exceptions\<close>

datatype py_error = ValueError | IndexError | ModelError

subsection \<open>The calendar behind \<^verbatim>\<open>pd.date_range\<close>\<close>

text \<open>
  A pandas timestamp at daily cadence is a civil date of the proleptic Gregorian
  calendar. The representable range of pandas' nanosecond timestamps (years 1677 to
  2262) is not modelled.
\<close>

record timestamp =
  year :: int
  month :: int
  day :: int

definition is_leap_year :: "int \<Rightarrow> bool" where
  "is_leap_year y = (y mod 4 = 0 \<and> (y mod 100 \<noteq> 0 \<or> y mod 400 = 0))"

text \<open>\<^verbatim>\<open>Timestamp.daysinmonth\<close>, as a function of year and month.\<close>

definition days_in_month :: "int \<Rightarrow> int \<Rightarrow> int" where
  "days_in_month y m =
     (if m = 2 then (if is_leap_year y then 29 else 28)
      else if m = 4 \<or> m = 6 \<or> m = 9 \<or> m = 11 then 30
      else 31)"

definition daysinmonth :: "timestamp \<Rightarrow> int" where
  "daysinmonth d = days_in_month (year d) (month d)"

text \<open>The strings that \<^verbatim>\<open>pd.date_range\<close> parses to a date are the valid civil dates.\<close>

definition valid_date :: "timestamp \<Rightarrow> bool" where
  "valid_date d =
     (1 \<le> month d \<and> month d \<le> 12 \<and> 1 \<le> day d \<and> day d \<le> daysinmonth d)"

text \<open>Adding one day (\<^verbatim>\<open>+ timedelta(days=1)\<close>, and the step of a daily range).\<close>

definition next_day :: "timestamp \<Rightarrow> timestamp" where
  "next_day d =
     (if day d < daysinmonth d then d\<lparr>day := day d + 1\<rparr>
      else if month d < 12 then d\<lparr>month := month d + 1, day := 1\<rparr>
      else d\<lparr>year := year d + 1, month := 1, day := 1\<rparr>)"

text \<open>The proleptic Gregorian ordinal of a date (day 1 is 0001-01-01).\<close>

definition days_before_year :: "int \<Rightarrow> int" where
  "days_before_year y = (y - 1) * 365 + (y - 1) div 4 - (y - 1) div 100 + (y - 1) div 400"

definition days_before_month :: "int \<Rightarrow> int \<Rightarrow> int" where
  "days_before_month y m =
     (if m = 1 then 0 else if m = 2 then 31
      else (if is_leap_year y then 1 else 0) +
        (if m = 3 then 59 else if m = 4 then 90 else if m = 5 then 120
         else if m = 6 then 151 else if m = 7 then 181 else if m = 8 then 212
         else if m = 9 then 243 else if m = 10 then 273 else if m = 11 then 304
         else 334))"

definition toordinal :: "timestamp \<Rightarrow> int" where
  "toordinal d = days_before_year (year d) + days_before_month (year d) (month d) + day d"

text \<open>\<^verbatim>\<open>DatetimeIndex.dayofweek\<close>: Monday is 0 and Sunday is 6.\<close>

definition dayofweek :: "timestamp \<Rightarrow> int" where
  "dayofweek d = (toordinal d + 6) mod 7"


fun date_range_from :: "timestamp \<Rightarrow> nat \<Rightarrow> timestamp list" where
  "date_range_from d 0 = []"
| "date_range_from d (Suc n) = d # date_range_from (next_day d) n"

text \<open>
  \<^verbatim>\<open>pd.date_range(start=start, periods=periods)\<close> with the default daily frequency:
  \<open>periods\<close> consecutive days from \<open>start\<close>. A start that is no date and a negative
  number of periods raise.
\<close>

definition date_range :: "timestamp \<Rightarrow> int \<Rightarrow> py_error + timestamp list" where
  "date_range start periods =
     (if \<not> valid_date start then Inl ValueError
      else if periods < 0 then Inl ValueError
      else Inr (date_range_from start (nat periods)))"

subsection \<open>numpy array operations\<close>

text \<open>
  \<^verbatim>\<open>np.linspace(start, stop, num)\<close>: \<open>num\<close> evenly spaced samples, the last one set to
  \<open>stop\<close> when there are at least two; a negative \<open>num\<close> raises.
\<close>

definition linspace :: "real \<Rightarrow> real \<Rightarrow> int \<Rightarrow> py_error + real list" where
  "linspace start stop num =
     (if num < 0 then Inl ValueError
      else
        let n = nat num;
            dv = num - 1;
            delta = stop - start;
            y = map (\<lambda>i. if 0 < dv then real i * (delta / real_of_int dv) + start
                          else real i * delta + start) [0..<n]
        in Inr (if 1 < n then y[n - 1 := stop] else y))"

text \<open>\<^verbatim>\<open>a[mask] = v\<close> for a boolean mask of the length of \<open>a\<close>.\<close>

definition mask_assign :: "real list \<Rightarrow> bool list \<Rightarrow> real \<Rightarrow> real list" where
  "mask_assign a msk v = map (\<lambda>(x, m). if m then v else x) (zip a msk)"

text \<open>Element-wise \<^verbatim>\<open>a + b\<close> of two arrays of one length.\<close>

definition np_add :: "real list \<Rightarrow> real list \<Rightarrow> real list" where
  "np_add a b = map (\<lambda>(x, y). x + y) (zip a b)"

text \<open>\<^verbatim>\<open>np.maximum(a, 0)\<close>.\<close>

definition np_maximum0 :: "real list \<Rightarrow> real list" where
  "np_maximum0 a = map (\<lambda>x. max x 0) a"

text \<open>
  \<^verbatim>\<open>round(2)\<close> of numpy and pandas: scale by 100, round to the nearest integer with
  ties to the even one, scale back.
\<close>

definition rint :: "real \<Rightarrow> int" where
  "rint x =
     (let f = \<lfloor>x\<rfloor>; r = x - real_of_int f
      in if r < 1 / 2 then f else if 1 / 2 < r then f + 1
         else if even f then f else f + 1)"

definition round2 :: "real \<Rightarrow> real" where
  "round2 x = real_of_int (rint (x * 100)) / 100"

text \<open>
  \<^verbatim>\<open>df.loc[idx, 'sales'] *= factors\<close> on a frame with the default index: the values at
  the labels \<open>idx\<close> are read, multiplied by the factors position by position, and
  written back.
\<close>

definition loc_imul :: "real list \<Rightarrow> nat list \<Rightarrow> real list \<Rightarrow> real list" where
  "loc_imul col idx factors =
     fold (\<lambda>(i, f) acc. acc[i := col ! i * f]) (zip idx factors) col"

subsection \<open>The random source \<^verbatim>\<open>np.random\<close>\<close>

text \<open>
  The state of the generator is the stream of standard normal variates, the stream of
  uniform doubles of \<open>[0, 1)\<close> and the outcomes of the calls of \<^verbatim>\<open>choice\<close> still to
  come, with a position in each. The legacy generator computes a normal sample as
  \<open>loc + scale * z\<close> and a uniform one as \<open>low + (high - low) * u\<close>.
\<close>

record rng =
  gauss :: "nat \<Rightarrow> real"
  unif :: "nat \<Rightarrow> real"
  picks :: "nat \<Rightarrow> nat \<Rightarrow> nat \<Rightarrow> nat list"
  gpos :: nat
  upos :: nat
  cpos :: nat

text \<open>\<^verbatim>\<open>np.random.normal(loc, scale, size)\<close>; a negative scale raises.\<close>

definition random_normal :: "real \<Rightarrow> real \<Rightarrow> nat \<Rightarrow> rng \<Rightarrow> py_error + (real list \<times> rng)" where
  "random_normal loc scale sz g =
     (if scale < 0 then Inl ValueError
      else Inr (map (\<lambda>i. loc + scale * gauss g (gpos g + i)) [0..<sz],
                g\<lparr>gpos := gpos g + sz\<rparr>))"

text \<open>\<^verbatim>\<open>np.random.uniform(low, high, size=size)\<close>.\<close>

definition random_uniform :: "real \<Rightarrow> real \<Rightarrow> nat \<Rightarrow> rng \<Rightarrow> real list \<times> rng" where
  "random_uniform low high sz g =
     (map (\<lambda>i. low + (high - low) * unif g (upos g + i)) [0..<sz],
      g\<lparr>upos := upos g + sz\<rparr>)"

text \<open>\<^verbatim>\<open>np.random.uniform(low, high)\<close>: one sample.\<close>

definition random_uniform1 :: "real \<Rightarrow> real \<Rightarrow> rng \<Rightarrow> real \<times> rng" where
  "random_uniform1 low high g =
     (low + (high - low) * unif g (upos g), g\<lparr>upos := upos g + 1\<rparr>)"

text \<open>
  \<^verbatim>\<open>np.random.choice(a, size=size, replace=False)\<close>: a sample larger than the
  population raises.
\<close>

definition random_choice :: "nat \<Rightarrow> nat \<Rightarrow> rng \<Rightarrow> py_error + (nat list \<times> rng)" where
  "random_choice a sz g =
     (if a < sz then Inl ValueError
      else Inr (picks g (cpos g) a sz, g\<lparr>cpos := cpos g + 1\<rparr>))"

text \<open>
  What numpy guarantees of the source: a uniform double lies in \<open>[0, 1)\<close>, and a choice
  without replacement of \<open>k\<close> out of \<open>n\<close> is \<open>k\<close> distinct indices below \<open>n\<close>.
\<close>

definition rng_ok :: "rng \<Rightarrow> bool" where
  "rng_ok g =
     ((\<forall>i. 0 \<le> unif g i \<and> unif g i < 1) \<and>
      (\<forall>c n k. k \<le> n \<longrightarrow>
         length (picks g c n k) = k \<and> distinct (picks g c n k) \<and>
         (\<forall>j < k. picks g c n k ! j < n)))"

text \<open>\<^verbatim>\<open>int(x)\<close> of a float: truncation towards zero.\<close>

definition py_int :: "real \<Rightarrow> int" where
  "py_int x = (if 0 \<le> x then \<lfloor>x\<rfloor> else \<lceil>x\<rceil>)"

subsection \<open>The generator of \<^verbatim>\<open>app.py\<close>\<close>

record config =
  start_date :: timestamp
  periods :: int
  seasonality :: string
  trend_strength :: real
  noise_level :: real

record sales_frame =
  date :: "timestamp list"
  sales :: "real list"

text \<open>The seasonal component, lines 96 to 115 of \<^verbatim>\<open>app.py\<close>.\<close>

definition gts_seasonal :: "string \<Rightarrow> timestamp list \<Rightarrow> nat \<Rightarrow> real list" where
  "gts_seasonal kind dates n =
     (if kind = ''weekly'' then
        let day_of_week = map dayofweek dates;
            seasonal = replicate n 0;
            seasonal = mask_assign seasonal (map (\<lambda>w. w = 5) day_of_week) 30;
            seasonal = mask_assign seasonal (map (\<lambda>w. w = 6) day_of_week) 40;
            seasonal = mask_assign seasonal (map (\<lambda>w. w = 4) day_of_week) 20
        in seasonal
      else if kind = ''monthly'' then
        let day_of_month = map day dates;
            days_in_mon = map daysinmonth dates
        in map (\<lambda>(a, b). 30 * (real_of_int a / real_of_int b)) (zip day_of_month days_in_mon)
      else
        let mon = map month dates;
            seasonal = replicate n 0;
            seasonal = mask_assign seasonal (map (\<lambda>m. 6 \<le> m \<and> m \<le> 8) mon) 30;
            seasonal = mask_assign seasonal (map (\<lambda>m. 11 \<le> m \<and> m \<le> 12) mon) 40
        in seasonal)"

text \<open>\<^verbatim>\<open>generate_time_series_data\<close>, lines 87 to 131 of \<^verbatim>\<open>app.py\<close>.\<close>

definition generate_time_series_data :: "config \<Rightarrow> rng \<Rightarrow> py_error + (sales_frame \<times> rng)" where
  "generate_time_series_data cfg g0 =
     (case date_range (start_date cfg) (periods cfg) of
        Inl e \<Rightarrow> Inl e
      | Inr dates \<Rightarrow>
     (case linspace 100 (100 + 100 * trend_strength cfg) (periods cfg) of
        Inl e \<Rightarrow> Inl e
      | Inr trend \<Rightarrow>
     (let seasonal = gts_seasonal (seasonality cfg) dates (nat (periods cfg)) in
     (case random_normal 0 (noise_level cfg * 100) (nat (periods cfg)) g0 of
        Inl e \<Rightarrow> Inl e
      | Inr (noise, g1) \<Rightarrow>
     (let sales_arr = np_add (np_add trend seasonal) noise;
          sales_arr = np_maximum0 sales_arr;
          df = \<lparr>date = dates, sales = sales_arr\<rparr>
      in
     (case random_choice (nat (periods cfg))
             (nat (py_int (real_of_int (periods cfg) * 0.05))) g1 of
        Inl e \<Rightarrow> Inl e
      | Inr (special_events, g2) \<Rightarrow>
     (case random_uniform 1.2 1.5 (length special_events) g2 of
        (factors, g3) \<Rightarrow>
          Inr (df\<lparr>sales := loc_imul (sales df) special_events factors\<rparr>, g3))))))))"

text \<open>
  The local variables of the generator as functions of its inputs, for a run that gets
  past the argument checks: the dates, the trend, the noise, the series after the floor
  at zero, the selected event days and their factors.
\<close>

definition gen_dates :: "config \<Rightarrow> timestamp list" where
  "gen_dates cfg = date_range_from (start_date cfg) (nat (periods cfg))"

definition gen_trend :: "config \<Rightarrow> real list" where
  "gen_trend cfg =
     (let n = nat (periods cfg);
          y = map (\<lambda>i. if 1 < periods cfg
                then real i * (100 * trend_strength cfg / real_of_int (periods cfg - 1)) + 100
                else real i * (100 * trend_strength cfg) + 100) [0..<n]
      in if 1 < n then y[n - 1 := 100 + 100 * trend_strength cfg] else y)"

definition gen_noise :: "config \<Rightarrow> rng \<Rightarrow> real list" where
  "gen_noise cfg g =
     map (\<lambda>i. noise_level cfg * 100 * gauss g (gpos g + i)) [0..<nat (periods cfg)]"

definition gen_floored :: "config \<Rightarrow> rng \<Rightarrow> real list" where
  "gen_floored cfg g =
     np_maximum0 (np_add (np_add (gen_trend cfg)
        (gts_seasonal (seasonality cfg) (gen_dates cfg) (nat (periods cfg)))) (gen_noise cfg g))"

definition event_count :: "int \<Rightarrow> nat" where
  "event_count p = nat (py_int (real_of_int p * 0.05))"

definition gen_events :: "config \<Rightarrow> rng \<Rightarrow> nat list" where
  "gen_events cfg g = picks g (cpos g) (nat (periods cfg)) (event_count (periods cfg))"

definition gen_factors :: "config \<Rightarrow> rng \<Rightarrow> real list" where
  "gen_factors cfg g =
     map (\<lambda>i. 1.2 + (1.5 - 1.2) * unif g (upos g + i)) [0..<length (gen_events cfg g)]"

text \<open>A configuration that passes the argument checks of pandas and numpy.\<close>

definition config_ok :: "config \<Rightarrow> bool" where
  "config_ok cfg = (valid_date (start_date cfg) \<and> 0 \<le> periods cfg \<and> 0 \<le> noise_level cfg)"

subsection \<open>The generator of \<^verbatim>\<open>dataset_generator.py\<close>\<close>

text \<open>The frame of this generator has the category columns besides the two of the other.\<close>

record sales_data_frame = sales_frame +
  columns :: "(string \<times> real list) list"

text \<open>\<^verbatim>\<open>str.lower\<close> on ASCII text.\<close>

definition lower_char :: "char \<Rightarrow> char" where
  "lower_char c =
     (let k = (of_char c :: nat) in if 65 \<le> k \<and> k \<le> 90 then char_of (k + 32) else c)"

definition lower :: "string \<Rightarrow> string" where
  "lower s = map lower_char s"

text \<open>The seasonal component, lines 40 to 59 of \<^verbatim>\<open>dataset_generator.py\<close>.\<close>

definition gsd_seasonal :: "string \<Rightarrow> timestamp list \<Rightarrow> nat \<Rightarrow> real list" where
  "gsd_seasonal kind dates n =
     (if kind = ''weekly'' then
        let day_of_week = map dayofweek dates;
            seasonal = replicate n 0;
            seasonal = mask_assign seasonal (map (\<lambda>w. w = 5) day_of_week) 30;
            seasonal = mask_assign seasonal (map (\<lambda>w. w = 6) day_of_week) 40;
            seasonal = mask_assign seasonal (map (\<lambda>w. w = 4) day_of_week) 20
        in seasonal
      else if kind = ''monthly'' then
        let day_of_month = map day dates;
            days_in_mon = map daysinmonth dates
        in map (\<lambda>(a, b). 30 * (real_of_int a / real_of_int b)) (zip day_of_month days_in_mon)
      else
        let mon = map month dates;
            seasonal = replicate n 0;
            seasonal = mask_assign seasonal (map (\<lambda>m. 6 \<le> m \<and> m \<le> 8) mon) 30;
            seasonal = mask_assign seasonal (map (\<lambda>m. 11 \<le> m \<and> m \<le> 12) mon) 40
        in seasonal)"

text \<open>
  The loop over the categories, lines 80 to 89: every round draws a scale for the trend,
  a scale for the seasonal component and a fresh noise array, and adds one rounded
  column to the frame.
\<close>

fun add_categories ::
  "string list \<Rightarrow> real list \<Rightarrow> real list \<Rightarrow> real \<Rightarrow> nat \<Rightarrow> sales_data_frame \<Rightarrow> rng
    \<Rightarrow> py_error + (sales_data_frame \<times> rng)" where
  "add_categories [] trend seasonal nl n df g = Inr (df, g)"
| "add_categories (category # rest) trend seasonal nl n df g =
     (case random_uniform1 0.6 1.4 g of
        (u1, g1) \<Rightarrow>
     (let cat_trend = map (\<lambda>x. x * u1) trend in
     (case random_uniform1 0.8 1.2 g1 of
        (u2, g2) \<Rightarrow>
     (let cat_seasonal = map (\<lambda>x. x * u2) seasonal in
     (case random_normal 0 (nl * 80) n g2 of
        Inl e \<Rightarrow> Inl e
      | Inr (cat_noise, g3) \<Rightarrow>
     (let cat_sales = np_add (np_add cat_trend cat_seasonal) cat_noise;
          cat_sales = np_maximum0 cat_sales
      in add_categories rest trend seasonal nl n
           (df\<lparr>columns := columns df @ [(lower category @ ''_sales'', map round2 cat_sales)]\<rparr>)
           g3))))))"

definition categories :: "string list" where
  "categories = [''Electronics'', ''Clothing'', ''Food'', ''Home Goods'']"

text \<open>
  \<^verbatim>\<open>generate_sales_data\<close> up to the end of the loop over the categories (lines 33 to
  89): the frame holds the primary series before it is rounded.
\<close>

definition gsd_unrounded :: "config \<Rightarrow> rng \<Rightarrow> py_error + (sales_data_frame \<times> rng)" where
  "gsd_unrounded cfg g0 =
     (case date_range (start_date cfg) (periods cfg) of
        Inl e \<Rightarrow> Inl e
      | Inr dates \<Rightarrow>
     (case linspace 100 (100 + 100 * trend_strength cfg) (periods cfg) of
        Inl e \<Rightarrow> Inl e
      | Inr trend \<Rightarrow>
     (let seasonal = gsd_seasonal (seasonality cfg) dates (nat (periods cfg)) in
     (case random_normal 0 (noise_level cfg * 100) (nat (periods cfg)) g0 of
        Inl e \<Rightarrow> Inl e
      | Inr (noise, g1) \<Rightarrow>
     (let sales_arr = np_add (np_add trend seasonal) noise;
          sales_arr = np_maximum0 sales_arr;
          df = \<lparr>date = dates, sales = sales_arr, columns = []\<rparr>
      in
     (case random_choice (nat (periods cfg))
             (nat (py_int (real_of_int (periods cfg) * 0.05))) g1 of
        Inl e \<Rightarrow> Inl e
      | Inr (special_events, g2) \<Rightarrow>
     (case random_uniform 1.2 1.5 (length special_events) g2 of
        (factors, g3) \<Rightarrow>
          add_categories categories trend seasonal (noise_level cfg) (nat (periods cfg))
            (df\<lparr>sales := loc_imul (sales df) special_events factors\<rparr>) g3)))))))"

text \<open>
  \<^verbatim>\<open>generate_sales_data\<close>, lines 7 to 98: the main column is rounded last. Writing the
  file and printing are left out.
\<close>

definition generate_sales_data :: "config \<Rightarrow> rng \<Rightarrow> py_error + (sales_data_frame \<times> rng)" where
  "generate_sales_data cfg g0 =
     (case gsd_unrounded cfg g0 of
        Inl e \<Rightarrow> Inl e
      | Inr (df, g) \<Rightarrow> Inr (df\<lparr>sales := map round2 (sales df)\<rparr>, g))"

subsection \<open>The forecaster of \<^verbatim>\<open>app.py\<close>\<close>

text \<open>
  Fitting \<^verbatim>\<open>ARIMA(df['sales'], order=(5, 1, 0))\<close> and calling \<^verbatim>\<open>forecast(steps=...)\<close>
  on the fit is a parameter of the model: a function from the historical values and
  the number of steps to the forecast values, or to the exception that statsmodels raises.
\<close>

type_synonym arima = "real list \<Rightarrow> int \<Rightarrow> py_error + real list"

text \<open>The slices \<^verbatim>\<open>xs.iloc[start:]\<close> and \<^verbatim>\<open>xs[:stop]\<close> of Python.\<close>

definition slice_from :: "'a list \<Rightarrow> int \<Rightarrow> 'a list" where
  "slice_from xs start =
     (if start < 0 then drop (nat (int (length xs) + start)) xs else drop (nat start) xs)"

definition slice_to :: "'a list \<Rightarrow> int \<Rightarrow> 'a list" where
  "slice_to xs stop =
     (if stop < 0 then take (nat (int (length xs) + stop)) xs else take (nat stop) xs)"

text \<open>
  Element-wise \<^verbatim>\<open>a - b\<close> of two one-dimensional arrays: equal lengths, or one of them
  of length one, which numpy broadcasts; any other pair of shapes raises.
\<close>

definition np_sub :: "real list \<Rightarrow> real list \<Rightarrow> py_error + real list" where
  "np_sub a b =
     (if length a = length b then Inr (map (\<lambda>(x, y). x - y) (zip a b))
      else if length a = 1 then Inr (map (\<lambda>y. hd a - y) b)
      else if length b = 1 then Inr (map (\<lambda>x. x - hd b) a)
      else Inl ValueError)"

text \<open>\<^verbatim>\<open>mean()\<close>: the mean of no value is NaN, which is \<open>None\<close> here.\<close>

definition np_mean :: "real list \<Rightarrow> real option" where
  "np_mean xs = (if xs = [] then None else Some (sum_list xs / real (length xs)))"

record forecast_result =
  forecast_dates :: "timestamp list"
  forecast_values :: "real list"
  mse :: "real option"
  mae :: "real option"

text \<open>
  \<^verbatim>\<open>perform_forecast\<close>, lines 153 to 202 of \<^verbatim>\<open>app.py\<close>, without the chart. The frame
  built at line 167 needs as many dates as forecast values.
\<close>

definition perform_forecast :: "arima \<Rightarrow> sales_frame \<Rightarrow> int \<Rightarrow> py_error + forecast_result" where
  "perform_forecast model df forecast_periods =
     (case model (sales df) forecast_periods of
        Inl e \<Rightarrow> Inl e
      | Inr forecast \<Rightarrow>
          if date df = [] then Inl IndexError
          else
            let last_date = last (date df) in
            (case date_range (next_day last_date) forecast_periods of
               Inl e \<Rightarrow> Inl e
             | Inr fdates \<Rightarrow>
                 if length fdates \<noteq> length forecast then Inl ValueError
                 else
                   (case np_sub (slice_from (sales df) (- forecast_periods))
                           (slice_to forecast forecast_periods) of
                      Inl e \<Rightarrow> Inl e
                    | Inr diff \<Rightarrow>
                        Inr \<lparr>forecast_dates = fdates, forecast_values = forecast,
                             mse = np_mean (map (\<lambda>x. x ^ 2) diff),
                             mae = np_mean (map abs diff)\<rparr>)))"

text \<open>
  The route \<^verbatim>\<open>forecast\<close>, lines 61 to 85: no stored dataset and every exception give
  the status \<^verbatim>\<open>error\<close>, a result gives the status \<^verbatim>\<open>success\<close> with the metrics.
\<close>

datatype response = Success_response "real option" "real option" | Error_response

definition forecast :: "arima \<Rightarrow> sales_frame option \<Rightarrow> int \<Rightarrow> response" where
  "forecast model file forecast_periods =
     (case file of
        None \<Rightarrow> Error_response
      | Some df \<Rightarrow>
          (case perform_forecast model df forecast_periods of
             Inl e \<Rightarrow> Error_response
           | Inr result \<Rightarrow> Success_response (mse result) (mae result)))"

subsection \<open>Sample inputs\<close>

definition sample_rng :: rng where
  "sample_rng =
     \<lparr>gauss = (\<lambda>i. if even i then 1 else - 2), unif = (\<lambda>i. 1 / 2),
      picks = (\<lambda>c n k. rev [0..<k]), gpos = 0, upos = 0, cpos = 0\<rparr>"


text \<open>The end-to-end scenario of the specification.\<close>

definition scenario_config :: config where
  "scenario_config =
     \<lparr>start_date = \<lparr>year = 2023, month = 1, day = 1\<rparr>, periods = 14,
      seasonality = ''weekly'', trend_strength = 1 / 2, noise_level = 0\<rparr>"

text \<open>
  A stand-in for the fitted model in the examples: like statsmodels it raises when no
  step is asked for or the history is too short to fit, and it returns exactly as many
  values as steps otherwise (here the last observation, repeated).
\<close>

definition sample_model :: arima where
  "sample_model xs steps =
     (if steps \<le> 0 \<or> length xs < 7 then Inl ModelError
      else Inr (replicate (nat steps) (last xs)))"

definition sample_history :: sales_frame where
  "sample_history =
     \<lparr>date = date_range_from \<lparr>year = 2023, month = 1, day = 1\<rparr> 20,
      sales = map (\<lambda>i. 100 + real i) [0..<20]\<rparr>"

section \<open>Properties\<close>

subsection \<open>Calendar, arrays and the two generators\<close>

lemma days_in_month_pos: "1 \<le> days_in_month y m"
  by (simp add: days_in_month_def)

lemma valid_next_day: "valid_date d \<Longrightarrow> valid_date (next_day d)"
  by (auto simp: valid_date_def next_day_def daysinmonth_def days_in_month_def)








lemma length_date_range_from: "length (date_range_from d n) = n"
  by (induction n arbitrary: d) simp_all

lemma nth_date_range_from: "i < n \<Longrightarrow> date_range_from d n ! i = (next_day ^^ i) d"
proof (induction n arbitrary: d i)
  case 0
  then show ?case by simp
next
  case (Suc n)
  then show ?case by (cases i) (simp_all add: funpow_swap1)
qed

lemma valid_funpow_next_day: "valid_date d \<Longrightarrow> valid_date ((next_day ^^ i) d)"
  by (induction i) (simp_all add: valid_next_day)


lemma py_int_periods: "0 \<le> p \<Longrightarrow> py_int (real_of_int p * 0.05) = p div 20"
proof -
  assume "0 \<le> p"
  have "real_of_int p * 0.05 = real_of_int p / real_of_int 20" by simp
  then have "\<lfloor>real_of_int p * 0.05\<rfloor> = p div 20"
    by (simp only: floor_divide_of_int_eq)
  with \<open>0 \<le> p\<close> show ?thesis by (simp add: py_int_def)
qed

lemma event_count_eq: "0 \<le> p \<Longrightarrow> event_count p = nat (p div 20)"
  unfolding event_count_def by (simp only: py_int_periods)

lemma event_count_le: "0 \<le> p \<Longrightarrow> event_count p \<le> nat p"
  by (simp add: event_count_eq)


lemma length_mask_assign: "length (mask_assign a m v) = min (length a) (length m)"
  by (simp add: mask_assign_def)

lemma nth_mask_assign:
  "i < length a \<Longrightarrow> i < length m \<Longrightarrow> mask_assign a m v ! i = (if m ! i then v else a ! i)"
  by (simp add: mask_assign_def)

lemma length_np_add: "length (np_add a b) = min (length a) (length b)"
  by (simp add: np_add_def)

lemma nth_np_add: "i < length a \<Longrightarrow> i < length b \<Longrightarrow> np_add a b ! i = a ! i + b ! i"
  by (simp add: np_add_def)

lemma length_np_maximum0: "length (np_maximum0 a) = length a"
  by (simp add: np_maximum0_def)

lemma nth_np_maximum0: "i < length a \<Longrightarrow> np_maximum0 a ! i = max (a ! i) 0"
  by (simp add: np_maximum0_def)



lemma length_gts_seasonal: "length dates = n \<Longrightarrow> length (gts_seasonal k dates n) = n"
  by (simp add: gts_seasonal_def Let_def length_mask_assign)

lemma length_gen_dates: "length (gen_dates cfg) = nat (periods cfg)"
  by (simp add: gen_dates_def length_date_range_from)

lemma length_gen_trend: "length (gen_trend cfg) = nat (periods cfg)"
  by (simp add: gen_trend_def Let_def)

lemma length_gen_noise: "length (gen_noise cfg g) = nat (periods cfg)"
  by (simp add: gen_noise_def)


lemma linspace_gen_trend:
  "0 \<le> periods cfg \<Longrightarrow>
   linspace 100 (100 + 100 * trend_strength cfg) (periods cfg) = Inr (gen_trend cfg)"
  by (simp add: linspace_def gen_trend_def Let_def)

lemma random_normal_gen_noise:
  "0 \<le> noise_level cfg \<Longrightarrow>
   random_normal 0 (noise_level cfg * 100) (nat (periods cfg)) g
     = Inr (gen_noise cfg g, g\<lparr>gpos := gpos g + nat (periods cfg)\<rparr>)"
  by (simp add: random_normal_def gen_noise_def)

lemma generate_time_series_data_ok:
  assumes "config_ok cfg"
  shows "generate_time_series_data cfg g =
     Inr (\<lparr>date = gen_dates cfg,
           sales = loc_imul (gen_floored cfg g) (gen_events cfg g) (gen_factors cfg g)\<rparr>,
          g\<lparr>gpos := gpos g + nat (periods cfg), cpos := cpos g + 1,
            upos := upos g + length (gen_events cfg g)\<rparr>)"
proof -
  from assms have v: "valid_date (start_date cfg)" and p: "0 \<le> periods cfg"
    and nl: "0 \<le> noise_level cfg" by (simp_all add: config_ok_def)
  have d: "date_range (start_date cfg) (periods cfg) = Inr (gen_dates cfg)"
    using v p by (simp add: date_range_def gen_dates_def)
  have le: "\<not> nat (periods cfg) < event_count (periods cfg)"
    using event_count_le [OF p] by simp
  have c: "random_choice (nat (periods cfg)) (event_count (periods cfg))
      (g\<lparr>gpos := gpos g + nat (periods cfg)\<rparr>)
     = Inr (gen_events cfg g, g\<lparr>gpos := gpos g + nat (periods cfg), cpos := cpos g + 1\<rparr>)"
    using le by (simp add: random_choice_def gen_events_def)
  show ?thesis
    unfolding generate_time_series_data_def event_count_def [symmetric]
    by (simp only: d linspace_gen_trend [OF p] random_normal_gen_noise [OF nl] c Let_def
        sum.case prod.case random_uniform_def)
      (simp add: gen_floored_def gen_factors_def)
qed


lemma gsd_seasonal_eq: "gsd_seasonal k dates n = gts_seasonal k dates n"
  by (simp add: gsd_seasonal_def gts_seasonal_def)

lemma rint_nonneg: "0 \<le> x \<Longrightarrow> 0 \<le> rint x"
proof -
  assume "0 \<le> x"
  then have "0 \<le> \<lfloor>x\<rfloor>" by simp
  then show ?thesis by (simp add: rint_def Let_def)
qed

lemma round2_nonneg: "0 \<le> x \<Longrightarrow> 0 \<le> round2 x"
  by (simp add: round2_def rint_nonneg)

lemma np_maximum0_nonneg: "x \<in> set (np_maximum0 a) \<Longrightarrow> 0 \<le> x"
  by (auto simp: np_maximum0_def)

lemma add_categories_ok:
  assumes "0 \<le> nl" "length trend = n" "length seasonal = n"
  shows "\<exists>df' g'. add_categories cs trend seasonal nl n df g = Inr (df', g')
     \<and> date df' = date df \<and> sales df' = sales df
     \<and> length (columns df') = length (columns df) + length cs
     \<and> map fst (columns df') = map fst (columns df) @ map (\<lambda>c. lower c @ ''_sales'') cs
     \<and> ((\<forall>c \<in> set (columns df). length (snd c) = n \<and> (\<forall>x \<in> set (snd c). 0 \<le> x))
        \<longrightarrow> (\<forall>c \<in> set (columns df'). length (snd c) = n \<and> (\<forall>x \<in> set (snd c). 0 \<le> x)))"
  using assms
proof (induction cs arbitrary: df g)
  case Nil
  then show ?case by simp
next
  case (Cons c cs)
  define u1 where "u1 = fst (random_uniform1 0.6 1.4 g)"
  define g1 where "g1 = snd (random_uniform1 0.6 1.4 g)"
  define u2 where "u2 = fst (random_uniform1 0.8 1.2 g1)"
  define g2 where "g2 = snd (random_uniform1 0.8 1.2 g1)"
  define cat_noise where "cat_noise = map (\<lambda>i. 0 + nl * 80 * gauss g2 (gpos g2 + i)) [0..<n]"
  define g3 where "g3 = g2\<lparr>gpos := gpos g2 + n\<rparr>"
  define col where "col = map round2 (np_maximum0 (np_add (np_add (map (\<lambda>x. x * u1) trend)
      (map (\<lambda>x. x * u2) seasonal)) cat_noise))"
  define df1 where "df1 = df\<lparr>columns := columns df @ [(lower c @ ''_sales'', col)]\<rparr>"
  have rn: "random_normal 0 (nl * 80) n g2 = Inr (cat_noise, g3)"
    using Cons.prems(1) by (simp add: random_normal_def cat_noise_def g3_def)
  have step: "add_categories (c # cs) trend seasonal nl n df g
      = add_categories cs trend seasonal nl n df1 g3"
    apply (simp only: add_categories.simps case_prod_beta Let_def)
    apply (simp only: u1_def [symmetric] g1_def [symmetric])
    apply (simp only: u2_def [symmetric] g2_def [symmetric] rn sum.case prod.case)
    apply (simp only: col_def df1_def)
    done
  have lc: "length col = n"
    using Cons.prems(2,3)
    by (simp add: col_def length_np_maximum0 length_np_add cat_noise_def)
  have pc: "\<forall>x \<in> set col. 0 \<le> x"
    by (auto simp: col_def intro!: round2_nonneg dest: np_maximum0_nonneg)
  from Cons.IH [OF Cons.prems, of df1 g3] obtain df' g' where
    ih: "add_categories cs trend seasonal nl n df1 g3 = Inr (df', g')
     \<and> date df' = date df1 \<and> sales df' = sales df1
     \<and> length (columns df') = length (columns df1) + length cs
     \<and> map fst (columns df') = map fst (columns df1) @ map (\<lambda>c. lower c @ ''_sales'') cs
     \<and> ((\<forall>c \<in> set (columns df1). length (snd c) = n \<and> (\<forall>x \<in> set (snd c). 0 \<le> x))
        \<longrightarrow> (\<forall>c \<in> set (columns df'). length (snd c) = n \<and> (\<forall>x \<in> set (snd c). 0 \<le> x)))"
    by (elim exE)
  note r = ih [THEN conjunct1]
  note d = ih [THEN conjunct2, THEN conjunct1]
  note s = ih [THEN conjunct2, THEN conjunct2, THEN conjunct1]
  note l = ih [THEN conjunct2, THEN conjunct2, THEN conjunct2, THEN conjunct1]
  note nm = ih [THEN conjunct2, THEN conjunct2, THEN conjunct2, THEN conjunct2, THEN conjunct1]
  note inv = ih [THEN conjunct2, THEN conjunct2, THEN conjunct2, THEN conjunct2, THEN conjunct2]
  show ?case
    unfolding step
  proof (intro exI [of _ df'] exI [of _ g'] conjI)
    show "add_categories cs trend seasonal nl n df1 g3 = Inr (df', g')" by (rule r)
    show "date df' = date df" using d by (simp add: df1_def)
    show "sales df' = sales df" using s by (simp add: df1_def)
    show "length (columns df') = length (columns df) + length (c # cs)"
      using l by (simp add: df1_def)
    show "map fst (columns df') = map fst (columns df) @ map (\<lambda>c. lower c @ ''_sales'') (c # cs)"
      using nm by (simp add: df1_def)
    show "(\<forall>c \<in> set (columns df). length (snd c) = n \<and> (\<forall>x \<in> set (snd c). 0 \<le> x))
        \<longrightarrow> (\<forall>c \<in> set (columns df'). length (snd c) = n \<and> (\<forall>x \<in> set (snd c). 0 \<le> x))"
      using inv lc pc by (simp add: df1_def)
  qed
qed

lemma gsd_unrounded_ok:
  assumes "config_ok cfg"
  shows "gsd_unrounded cfg g =
     add_categories categories (gen_trend cfg)
       (gts_seasonal (seasonality cfg) (gen_dates cfg) (nat (periods cfg)))
       (noise_level cfg) (nat (periods cfg))
       \<lparr>date = gen_dates cfg,
        sales = loc_imul (gen_floored cfg g) (gen_events cfg g) (gen_factors cfg g),
        columns = []\<rparr>
       (g\<lparr>gpos := gpos g + nat (periods cfg), cpos := cpos g + 1,
          upos := upos g + length (gen_events cfg g)\<rparr>)"
proof -
  from assms have v: "valid_date (start_date cfg)" and p: "0 \<le> periods cfg"
    and nl: "0 \<le> noise_level cfg" by (simp_all add: config_ok_def)
  have d: "date_range (start_date cfg) (periods cfg) = Inr (gen_dates cfg)"
    using v p by (simp add: date_range_def gen_dates_def)
  have le: "\<not> nat (periods cfg) < event_count (periods cfg)"
    using event_count_le [OF p] by simp
  have c: "random_choice (nat (periods cfg)) (event_count (periods cfg))
      (g\<lparr>gpos := gpos g + nat (periods cfg)\<rparr>)
     = Inr (gen_events cfg g, g\<lparr>gpos := gpos g + nat (periods cfg), cpos := cpos g + 1\<rparr>)"
    using le by (simp add: random_choice_def gen_events_def)
  show ?thesis
    unfolding gsd_unrounded_def event_count_def [symmetric]
    by (simp only: d linspace_gen_trend [OF p] random_normal_gen_noise [OF nl] c Let_def
        sum.case prod.case random_uniform_def gsd_seasonal_eq)
      (simp add: gen_floored_def gen_factors_def)
qed







lemma sample_rng_ok: "rng_ok sample_rng"
  by (auto simp: rng_ok_def sample_rng_def rev_nth)

subsection \<open>The event multiplication\<close>










lemma gen_events_props:
  assumes "rng_ok g" and "0 \<le> periods cfg"
  shows "length (gen_events cfg g) = nat (periods cfg div 20)"
    and "distinct (gen_events cfg g)"
    and "\<forall>j < length (gen_events cfg g). gen_events cfg g ! j < nat (periods cfg)"
proof -
  from event_count_le [OF assms(2)] assms(1)
  have a: "length (gen_events cfg g) = event_count (periods cfg)"
    and b: "distinct (gen_events cfg g)"
    and c: "\<forall>j < event_count (periods cfg). gen_events cfg g ! j < nat (periods cfg)"
    by (simp_all add: rng_ok_def gen_events_def)
  from a show "length (gen_events cfg g) = nat (periods cfg div 20)"
    by (simp only: event_count_eq [OF assms(2)])
  from b show "distinct (gen_events cfg g)" .
  from a c show "\<forall>j < length (gen_events cfg g). gen_events cfg g ! j < nat (periods cfg)"
    by simp
qed

subsection \<open>Claims on the dates of the series\<close>



subsection \<open>Claims on the generated values\<close>






subsection \<open>Claims on the seasonal component\<close>

lemma nth_gts_seasonal_weekly:
  assumes "length dates = n" and "i < n"
  shows "gts_seasonal ''weekly'' dates n ! i =
     (if dayofweek (dates ! i) = 4 then 20 else if dayofweek (dates ! i) = 5 then 30
      else if dayofweek (dates ! i) = 6 then 40 else 0)"
  using assms by (simp add: gts_seasonal_def Let_def nth_mask_assign length_mask_assign)

lemma nth_gts_seasonal_monthly:
  assumes "length dates = n" and "i < n"
  shows "gts_seasonal ''monthly'' dates n ! i =
     30 * (real_of_int (day (dates ! i)) / real_of_int (daysinmonth (dates ! i)))"
  using assms by (simp add: gts_seasonal_def Let_def)

lemma nth_gen_floored:
  assumes "i < nat (periods cfg)"
  shows "gen_floored cfg g ! i =
     max (gen_trend cfg ! i
          + gts_seasonal (seasonality cfg) (gen_dates cfg) (nat (periods cfg)) ! i
          + gen_noise cfg g ! i) 0"
  using assms
  by (simp add: gen_floored_def nth_np_maximum0 nth_np_add length_np_add length_gen_trend
      length_gen_noise length_gts_seasonal length_gen_dates)

text \<open>
  Claim C4. With weekly seasonality the seasonal component of a day depends on its day
  of the week only: 20 on a Friday (day 4 of the pandas week, which starts on Monday
  with 0), 30 on a Saturday (5), 40 on a Sunday (6) and 0 on every other day. This is
  the array computed by both generators, and it is what the generator adds to trend
  and noise before the floor.
\<close>

theorem C4_weekly_seasonal:
  assumes "length dates = n" and "i < n"
  shows "gts_seasonal ''weekly'' dates n ! i =
       (if dayofweek (dates ! i) = 4 then 20 else if dayofweek (dates ! i) = 5 then 30
        else if dayofweek (dates ! i) = 6 then 40 else 0)
     \<and> gsd_seasonal ''weekly'' dates n ! i =
       (if dayofweek (dates ! i) = 4 then 20 else if dayofweek (dates ! i) = 5 then 30
        else if dayofweek (dates ! i) = 6 then 40 else 0)
     \<and> (seasonality cfg = ''weekly'' \<and> nat (periods cfg) = n \<longrightarrow>
          gen_floored cfg g ! i =
            max (gen_trend cfg ! i
              + (if dayofweek (gen_dates cfg ! i) = 4 then 20
                 else if dayofweek (gen_dates cfg ! i) = 5 then 30
                 else if dayofweek (gen_dates cfg ! i) = 6 then 40 else 0)
              + gen_noise cfg g ! i) 0)"
proof (intro conjI impI)
  show "gts_seasonal ''weekly'' dates n ! i =
       (if dayofweek (dates ! i) = 4 then 20 else if dayofweek (dates ! i) = 5 then 30
        else if dayofweek (dates ! i) = 6 then 40 else 0)"
    by (rule nth_gts_seasonal_weekly [OF assms])
  then show "gsd_seasonal ''weekly'' dates n ! i =
       (if dayofweek (dates ! i) = 4 then 20 else if dayofweek (dates ! i) = 5 then 30
        else if dayofweek (dates ! i) = 6 then 40 else 0)"
    by (simp only: gsd_seasonal_eq)
next
  assume a: "seasonality cfg = ''weekly'' \<and> nat (periods cfg) = n"
  then have s: "seasonality cfg = ''weekly''" and pn: "nat (periods cfg) = n" by simp_all
  from assms(2) pn have i: "i < nat (periods cfg)" by simp
  have l: "length (gen_dates cfg) = n" using pn by (simp add: length_gen_dates)
  show "gen_floored cfg g ! i =
            max (gen_trend cfg ! i
              + (if dayofweek (gen_dates cfg ! i) = 4 then 20
                 else if dayofweek (gen_dates cfg ! i) = 5 then 30
                 else if dayofweek (gen_dates cfg ! i) = 6 then 40 else 0)
              + gen_noise cfg g ! i) 0"
    unfolding nth_gen_floored [OF i] s pn nth_gts_seasonal_weekly [OF l assms(2)] ..
qed

lemma scenario_dates:
  "gen_dates scenario_config =
     [\<lparr>year = 2023, month = 1, day = 1\<rparr>, \<lparr>year = 2023, month = 1, day = 2\<rparr>,
      \<lparr>year = 2023, month = 1, day = 3\<rparr>, \<lparr>year = 2023, month = 1, day = 4\<rparr>,
      \<lparr>year = 2023, month = 1, day = 5\<rparr>, \<lparr>year = 2023, month = 1, day = 6\<rparr>,
      \<lparr>year = 2023, month = 1, day = 7\<rparr>, \<lparr>year = 2023, month = 1, day = 8\<rparr>,
      \<lparr>year = 2023, month = 1, day = 9\<rparr>, \<lparr>year = 2023, month = 1, day = 10\<rparr>,
      \<lparr>year = 2023, month = 1, day = 11\<rparr>, \<lparr>year = 2023, month = 1, day = 12\<rparr>,
      \<lparr>year = 2023, month = 1, day = 13\<rparr>, \<lparr>year = 2023, month = 1, day = 14\<rparr>]"
  by (simp add: gen_dates_def scenario_config_def eval_nat_numeral next_day_def
      daysinmonth_def days_in_month_def)

lemma dayofweek_2023_01:
  "1 \<le> k \<Longrightarrow> k \<le> 31 \<Longrightarrow> dayofweek \<lparr>year = 2023, month = 1, day = k\<rparr> = (k + 5) mod 7"
proof -
  have "days_before_year 2023 = 738520" by (simp add: days_before_year_def)
  then have "toordinal \<lparr>year = 2023, month = 1, day = k\<rparr> = 738520 + k"
    by (simp add: toordinal_def days_before_month_def)
  then have "dayofweek \<lparr>year = 2023, month = 1, day = k\<rparr> = (738520 + k + 6) mod 7"
    by (simp only: dayofweek_def)
  also have "738520 + k + 6 = 7 * 105503 + (k + 5)" by simp
  also have "(7 * 105503 + (k + 5)) mod 7 = (k + 5) mod 7"
    by (simp only: mod_mult_self4)
  finally show ?thesis .
qed

theorem C4_weekly_seasonal_witness:
  "length (gen_dates scenario_config) = 14 \<and> (5 :: nat) < 14
   \<and> gen_dates scenario_config ! 5 = \<lparr>year = 2023, month = 1, day = 6\<rparr>
   \<and> dayofweek (gen_dates scenario_config ! 5) = 4
   \<and> gts_seasonal ''weekly'' (gen_dates scenario_config) 14 ! 5 = 20
   \<and> gsd_seasonal ''weekly'' (gen_dates scenario_config) 14 ! 5 = 20
   \<and> seasonality scenario_config = ''weekly'' \<and> nat (periods scenario_config) = 14
   \<and> gen_floored scenario_config sample_rng ! 5 =
       max (gen_trend scenario_config ! 5 + 20 + gen_noise scenario_config sample_rng ! 5) 0"
proof -
  have l: "length (gen_dates scenario_config) = 14"
    by (simp add: length_gen_dates scenario_config_def)
  have i: "(5 :: nat) < 14" by simp
  have d: "gen_dates scenario_config ! 5 = \<lparr>year = 2023, month = 1, day = 6\<rparr>"
    by (simp add: scenario_dates)
  have w: "dayofweek (gen_dates scenario_config ! 5) = 4"
    by (simp add: d dayofweek_2023_01)
  have s: "seasonality scenario_config = ''weekly''" by (simp add: scenario_config_def)
  have p: "nat (periods scenario_config) = 14" by (simp add: scenario_config_def)
  from C4_weekly_seasonal [OF l i, of scenario_config sample_rng] w s p
  have "gts_seasonal ''weekly'' (gen_dates scenario_config) 14 ! 5 = 20"
    and "gsd_seasonal ''weekly'' (gen_dates scenario_config) 14 ! 5 = 20"
    and "gen_floored scenario_config sample_rng ! 5 =
       max (gen_trend scenario_config ! 5 + 20 + gen_noise scenario_config sample_rng ! 5) 0"
    by simp_all
  with l i d w s p show ?thesis by (intro conjI)
qed

text \<open>
  Claim C5, as amended. With monthly seasonality the bonus of a day is
  \<open>30 * (day_of_month / days_in_that_month)\<close>. It is positive and at most 30, it is
  exactly 30 on the last day of a month, and on the first day of a month it is
  \<open>30 / days_in_that_month\<close> (about 1, not 0). Along consecutive days it grows
  strictly within a month, and after the last day of a month it drops from 30 to
  \<open>30 / days_in_the_next_month\<close>.
\<close>

theorem C5_monthly_seasonal:
  assumes "valid_date d" and "i < n"
  shows "(let ds = date_range_from d n;
             s = gts_seasonal ''monthly'' ds n
         in gsd_seasonal ''monthly'' ds n = s
          \<and> s ! i = 30 * (real_of_int (day (ds ! i)) / real_of_int (daysinmonth (ds ! i)))
          \<and> 0 < s ! i \<and> s ! i \<le> 30
          \<and> (day (ds ! i) = daysinmonth (ds ! i) \<longrightarrow> s ! i = 30)
          \<and> (day (ds ! i) = 1 \<longrightarrow> s ! i = 30 / real_of_int (daysinmonth (ds ! i)))
          \<and> (Suc i < n \<and> day (ds ! i) < daysinmonth (ds ! i) \<longrightarrow>
                month (ds ! Suc i) = month (ds ! i) \<and> s ! i < s ! Suc i)
          \<and> (Suc i < n \<and> day (ds ! i) = daysinmonth (ds ! i) \<longrightarrow>
                day (ds ! Suc i) = 1
                \<and> s ! Suc i = 30 / real_of_int (daysinmonth (ds ! Suc i))
                \<and> s ! Suc i < s ! i))"
proof -
  define ds where "ds = date_range_from d n"
  define s where "s = gts_seasonal ''monthly'' ds n"
  have l: "length ds = n" by (simp add: ds_def length_date_range_from)
  have v: "valid_date (ds ! k)" if "k < n" for k
    using that assms(1) by (simp add: ds_def nth_date_range_from valid_funpow_next_day)
  have nx: "ds ! Suc k = next_day (ds ! k)" if "Suc k < n" for k
    using that by (simp add: ds_def nth_date_range_from)
  have sk: "s ! k = 30 * (real_of_int (day (ds ! k)) / real_of_int (daysinmonth (ds ! k)))"
    if "k < n" for k
    unfolding s_def by (rule nth_gts_seasonal_monthly [OF l that])
  have dim: "28 \<le> daysinmonth x" "daysinmonth x \<le> 31" for x
    by (simp_all add: daysinmonth_def days_in_month_def)
  from v [OF assms(2)] have d1: "1 \<le> day (ds ! i)" and d2: "day (ds ! i) \<le> daysinmonth (ds ! i)"
    by (simp_all add: valid_date_def)
  have pos: "0 < real_of_int (daysinmonth (ds ! i))" using dim(1) [of "ds ! i"] by simp
  have a: "gsd_seasonal ''monthly'' ds n = s" by (simp add: s_def gsd_seasonal_eq)
  have b: "0 < s ! i" using d1 pos by (simp add: sk [OF assms(2)])
  have c: "s ! i \<le> 30"
  proof -
    from d2 have "real_of_int (day (ds ! i)) \<le> real_of_int (daysinmonth (ds ! i))" by simp
    with pos have "real_of_int (day (ds ! i)) / real_of_int (daysinmonth (ds ! i)) \<le> 1"
      by (simp add: divide_le_eq)
    then show ?thesis by (simp add: sk [OF assms(2)])
  qed
  have e: "day (ds ! i) = daysinmonth (ds ! i) \<longrightarrow> s ! i = 30"
    using pos by (simp add: sk [OF assms(2)])
  have f: "day (ds ! i) = 1 \<longrightarrow> s ! i = 30 / real_of_int (daysinmonth (ds ! i))"
    by (simp add: sk [OF assms(2)])
  have g: "Suc i < n \<and> day (ds ! i) < daysinmonth (ds ! i) \<longrightarrow>
      month (ds ! Suc i) = month (ds ! i) \<and> s ! i < s ! Suc i"
  proof (intro impI, elim conjE)
    assume si: "Suc i < n" and lt: "day (ds ! i) < daysinmonth (ds ! i)"
    from lt have n1: "next_day (ds ! i) = (ds ! i)\<lparr>day := day (ds ! i) + 1\<rparr>"
      by (simp add: next_day_def)
    have m: "month (ds ! Suc i) = month (ds ! i)" by (simp add: nx [OF si] n1)
    have dm: "daysinmonth (ds ! Suc i) = daysinmonth (ds ! i)"
      by (simp add: nx [OF si] n1 daysinmonth_def)
    have dd: "day (ds ! Suc i) = day (ds ! i) + 1" by (simp add: nx [OF si] n1)
    have "s ! i < s ! Suc i"
      using pos by (simp add: sk [OF assms(2)] sk [OF si] dm dd divide_strict_right_mono)
    with m show "month (ds ! Suc i) = month (ds ! i) \<and> s ! i < s ! Suc i" by simp
  qed
  have h: "Suc i < n \<and> day (ds ! i) = daysinmonth (ds ! i) \<longrightarrow>
      day (ds ! Suc i) = 1 \<and> s ! Suc i = 30 / real_of_int (daysinmonth (ds ! Suc i))
      \<and> s ! Suc i < s ! i"
  proof (intro impI, elim conjE)
    assume si: "Suc i < n" and eq: "day (ds ! i) = daysinmonth (ds ! i)"
    from eq have dd: "day (ds ! Suc i) = 1" by (simp add: nx [OF si] next_day_def)
    then have s1: "s ! Suc i = 30 / real_of_int (daysinmonth (ds ! Suc i))"
      by (simp add: sk [OF si])
    from eq pos have s0: "s ! i = 30" by (simp add: sk [OF assms(2)])
    have "real_of_int 28 \<le> real_of_int (daysinmonth (ds ! Suc i))"
      using dim(1) [of "ds ! Suc i"] by (simp only: of_int_le_iff)
    then have "30 / real_of_int (daysinmonth (ds ! Suc i)) < 30"
      by (simp add: divide_less_eq)
    with dd s1 s0 show "day (ds ! Suc i) = 1
        \<and> s ! Suc i = 30 / real_of_int (daysinmonth (ds ! Suc i)) \<and> s ! Suc i < s ! i"
      by simp
  qed
  from a sk [OF assms(2)] b c e f g h show ?thesis
    unfolding Let_def ds_def [symmetric] s_def [symmetric] by (intro conjI)
qed

theorem C5_monthly_seasonal_witness:
  "valid_date \<lparr>year = 2023, month = 1, day = 30\<rparr> \<and> (1 :: nat) < 4
   \<and> date_range_from \<lparr>year = 2023, month = 1, day = 30\<rparr> 4 ! 1
       = \<lparr>year = 2023, month = 1, day = 31\<rparr>
   \<and> date_range_from \<lparr>year = 2023, month = 1, day = 30\<rparr> 4 ! Suc 1
       = \<lparr>year = 2023, month = 2, day = 1\<rparr>
   \<and> daysinmonth \<lparr>year = 2023, month = 1, day = 31\<rparr> = 31
   \<and> gts_seasonal ''monthly'' (date_range_from \<lparr>year = 2023, month = 1, day = 30\<rparr> 4) 4 ! 1 = 30
   \<and> gts_seasonal ''monthly'' (date_range_from \<lparr>year = 2023, month = 1, day = 30\<rparr> 4) 4 ! Suc 1
       = 30 / 28
   \<and> gts_seasonal ''monthly'' (date_range_from \<lparr>year = 2023, month = 1, day = 30\<rparr> 4) 4 ! Suc 1
       < gts_seasonal ''monthly'' (date_range_from \<lparr>year = 2023, month = 1, day = 30\<rparr> 4) 4 ! 1
   \<and> (0 :: nat) < 4
   \<and> date_range_from \<lparr>year = 2023, month = 1, day = 30\<rparr> 4 ! 0
       = \<lparr>year = 2023, month = 1, day = 30\<rparr>
   \<and> gts_seasonal ''monthly'' (date_range_from \<lparr>year = 2023, month = 1, day = 30\<rparr> 4) 4 ! 0
       < gts_seasonal ''monthly'' (date_range_from \<lparr>year = 2023, month = 1, day = 30\<rparr> 4) 4 ! Suc 0
   \<and> (2 :: nat) < 4
   \<and> day (date_range_from \<lparr>year = 2023, month = 1, day = 30\<rparr> 4 ! 2) = 1
   \<and> gts_seasonal ''monthly'' (date_range_from \<lparr>year = 2023, month = 1, day = 30\<rparr> 4) 4 ! 2
       = 30 / 28"
proof -
  define ds where "ds = date_range_from \<lparr>year = 2023, month = 1, day = 30\<rparr> 4"
  define s where "s = gts_seasonal ''monthly'' ds 4"
  have h1: "valid_date \<lparr>year = 2023, month = 1, day = 30\<rparr>"
    by (simp add: valid_date_def daysinmonth_def days_in_month_def)
  have h2: "(1 :: nat) < 4" by simp
  have dsv: "ds =
      [\<lparr>year = 2023, month = 1, day = 30\<rparr>, \<lparr>year = 2023, month = 1, day = 31\<rparr>,
       \<lparr>year = 2023, month = 2, day = 1\<rparr>, \<lparr>year = 2023, month = 2, day = 2\<rparr>]"
    by (simp add: ds_def eval_nat_numeral next_day_def daysinmonth_def days_in_month_def)
  have n1: "ds ! 1 = \<lparr>year = 2023, month = 1, day = 31\<rparr>" by (simp add: dsv)
  have n2: "ds ! Suc 1 = \<lparr>year = 2023, month = 2, day = 1\<rparr>" by (simp add: dsv)
  have dm: "daysinmonth \<lparr>year = 2023, month = 1, day = 31\<rparr> = 31"
    "daysinmonth \<lparr>year = 2023, month = 2, day = 1\<rparr> = 28"
    by (simp_all add: daysinmonth_def days_in_month_def is_leap_year_def)
  note c5 = C5_monthly_seasonal [OF h1 h2, unfolded Let_def, folded ds_def, folded s_def]
  from c5 have last_day: "day (ds ! 1) = daysinmonth (ds ! 1) \<longrightarrow> s ! 1 = 30"
    by (elim conjE)
  from c5 have reset: "Suc 1 < 4 \<and> day (ds ! 1) = daysinmonth (ds ! 1) \<longrightarrow>
      day (ds ! Suc 1) = 1 \<and> s ! Suc 1 = 30 / real_of_int (daysinmonth (ds ! Suc 1))
      \<and> s ! Suc 1 < s ! 1"
    by (elim conjE)
  have a: "s ! 1 = 30" using last_day unfolding n1 dm by simp
  have b: "s ! Suc 1 = 30 / 28" and c: "s ! Suc 1 < s ! 1"
    using reset unfolding n1 n2 dm by simp_all
  have h0: "(0 :: nat) < 4" and h2': "(2 :: nat) < 4" by simp_all
  have n0: "ds ! 0 = \<lparr>year = 2023, month = 1, day = 30\<rparr>" by (simp add: dsv)
  have n2': "ds ! 2 = \<lparr>year = 2023, month = 2, day = 1\<rparr>" by (simp add: dsv)
  have dm0: "daysinmonth \<lparr>year = 2023, month = 1, day = 30\<rparr> = 31"
    by (simp add: daysinmonth_def days_in_month_def)
  note c50 = C5_monthly_seasonal [OF h1 h0, unfolded Let_def, folded ds_def, folded s_def]
  from c50 have grow: "Suc 0 < 4 \<and> day (ds ! 0) < daysinmonth (ds ! 0) \<longrightarrow>
      month (ds ! Suc 0) = month (ds ! 0) \<and> s ! 0 < s ! Suc 0"
    by (elim conjE)
  have g: "s ! 0 < s ! Suc 0" using grow unfolding n0 dm0 by simp
  note c52 = C5_monthly_seasonal [OF h1 h2', unfolded Let_def, folded ds_def, folded s_def]
  from c52 have first_day: "day (ds ! 2) = 1 \<longrightarrow>
      s ! 2 = 30 / real_of_int (daysinmonth (ds ! 2))"
    by (elim conjE)
  have d2: "day (ds ! 2) = 1" by (simp add: n2')
  have f: "s ! 2 = 30 / 28" using first_day unfolding n2' dm by simp
  from h1 h2 n1 n2 dm(1) a b c h0 n0 g h2' d2 f show ?thesis
    unfolding s_def ds_def by (intro conjI)
qed

text \<open>
  The claim as stated fails on the first day of January 2023, a month of 31 days: the
  bonus is \<open>30 / 31\<close>, not 0.
\<close>

theorem C5_counterexample:
  "day \<lparr>year = 2023, month = 1, day = 1\<rparr> = 1
   \<and> 2 \<le> daysinmonth \<lparr>year = 2023, month = 1, day = 1\<rparr>
   \<and> gts_seasonal ''monthly'' (date_range_from \<lparr>year = 2023, month = 1, day = 1\<rparr> 2) 2 ! 0
       = 30 / 31
   \<and> gsd_seasonal ''monthly'' (date_range_from \<lparr>year = 2023, month = 1, day = 1\<rparr> 2) 2 ! 0
       = 30 / 31
   \<and> (30 / 31 :: real) \<noteq> 0"
  by (simp add: gts_seasonal_def gsd_seasonal_def Let_def eval_nat_numeral next_day_def
      daysinmonth_def days_in_month_def)

subsection \<open>The end-to-end scenario\<close>

lemma scenario_config_ok: "config_ok scenario_config"
  by (simp add: config_ok_def scenario_config_def valid_date_def daysinmonth_def
      days_in_month_def)

lemma scenario_no_events: "rng_ok g \<Longrightarrow> gen_events scenario_config g = []"
proof -
  assume g: "rng_ok g"
  have p: "0 \<le> periods scenario_config" by (simp add: scenario_config_def)
  have "periods scenario_config div 20 = 0" by (simp add: scenario_config_def)
  with gen_events_props(1) [OF g p] show ?thesis by simp
qed

lemma scenario_noise: "i < 14 \<Longrightarrow> gen_noise scenario_config g ! i = 0"
  by (simp add: gen_noise_def scenario_config_def)

lemma scenario_trend: "i < 13 \<Longrightarrow> gen_trend scenario_config ! i = real i * (50 / 13) + 100"
  by (simp add: gen_trend_def scenario_config_def Let_def)

text \<open>
  Claim C9. In the scenario (start 2023-01-01, 14 periods, weekly seasonality, trend
  strength 0.5, noise level 0) the day at index 6 is a Saturday and the day at index 7
  a Sunday; their values before noise are the trend value plus 30 and plus 40. The event
  multiplication touches at most one of the 14 days; the generator in fact selects
  \<open>int(14 * 0.05) = 0\<close> days, so the returned values are these sums themselves.
\<close>

theorem C9_scenario:
  assumes "rng_ok g"
  shows "\<exists>df g'. generate_time_series_data scenario_config g = Inr (df, g')
     \<and> date df ! 6 = \<lparr>year = 2023, month = 1, day = 7\<rparr> \<and> dayofweek (date df ! 6) = 5
     \<and> date df ! 7 = \<lparr>year = 2023, month = 1, day = 8\<rparr> \<and> dayofweek (date df ! 7) = 6
     \<and> np_add (gen_trend scenario_config)
          (gts_seasonal ''weekly'' (gen_dates scenario_config) 14) ! 6
         = gen_trend scenario_config ! 6 + 30
     \<and> np_add (gen_trend scenario_config)
          (gts_seasonal ''weekly'' (gen_dates scenario_config) 14) ! 7
         = gen_trend scenario_config ! 7 + 40
     \<and> np_add (gen_trend scenario_config)
          (gts_seasonal ''weekly'' (gen_dates scenario_config) 14) ! 2
         = gen_trend scenario_config ! 2
     \<and> length (gen_events scenario_config g) \<le> 1
     \<and> card {i. i < 14 \<and> sales df ! i \<noteq> gen_floored scenario_config g ! i} \<le> 1
     \<and> sales df ! 6 = gen_trend scenario_config ! 6 + 30
     \<and> sales df ! 7 = gen_trend scenario_config ! 7 + 40"
proof -
  define df where "df = \<lparr>date = gen_dates scenario_config,
      sales = gen_floored scenario_config g\<rparr>"
  have p: "nat (periods scenario_config) = 14" by (simp add: scenario_config_def)
  have s: "seasonality scenario_config = ''weekly''" by (simp add: scenario_config_def)
  have l: "length (gen_dates scenario_config) = 14" by (simp add: length_gen_dates p)
  have r: "generate_time_series_data scenario_config g =
      Inr (df, g\<lparr>gpos := gpos g + 14, cpos := cpos g + 1, upos := upos g\<rparr>)"
    by (simp add: generate_time_series_data_ok [OF scenario_config_ok]
        scenario_no_events [OF assms] loc_imul_def df_def p)
  have d6: "date df ! 6 = \<lparr>year = 2023, month = 1, day = 7\<rparr>"
    and d7: "date df ! 7 = \<lparr>year = 2023, month = 1, day = 8\<rparr>"
    and d1: "gen_dates scenario_config ! 2 = \<lparr>year = 2023, month = 1, day = 3\<rparr>"
    by (simp_all add: df_def scenario_dates)
  have w6: "dayofweek (date df ! 6) = 5" and w7: "dayofweek (date df ! 7) = 6"
    and w1: "dayofweek (gen_dates scenario_config ! 2) = 1"
    by (simp_all add: d6 d7 d1 dayofweek_2023_01)
  have s6: "gts_seasonal ''weekly'' (gen_dates scenario_config) 14 ! 6 = 30"
    using w6 by (simp add: nth_gts_seasonal_weekly [OF l] df_def)
  have s7: "gts_seasonal ''weekly'' (gen_dates scenario_config) 14 ! 7 = 40"
    using w7 by (simp add: nth_gts_seasonal_weekly [OF l] df_def)
  have s1: "gts_seasonal ''weekly'' (gen_dates scenario_config) 14 ! 2 = 0"
    using w1 by (simp add: nth_gts_seasonal_weekly [OF l])
  have lt: "length (gen_trend scenario_config) = 14" by (simp add: length_gen_trend p)
  have ls: "length (gts_seasonal ''weekly'' (gen_dates scenario_config) 14) = 14"
    by (simp add: length_gts_seasonal l)
  have a6: "np_add (gen_trend scenario_config)
          (gts_seasonal ''weekly'' (gen_dates scenario_config) 14) ! 6
         = gen_trend scenario_config ! 6 + 30"
    by (simp add: nth_np_add lt ls s6)
  have a7: "np_add (gen_trend scenario_config)
          (gts_seasonal ''weekly'' (gen_dates scenario_config) 14) ! 7
         = gen_trend scenario_config ! 7 + 40"
    by (simp add: nth_np_add lt ls s7)
  have a1: "np_add (gen_trend scenario_config)
          (gts_seasonal ''weekly'' (gen_dates scenario_config) 14) ! 2
         = gen_trend scenario_config ! 2"
    by (simp add: nth_np_add lt ls s1)
  have e: "length (gen_events scenario_config g) \<le> 1"
    by (simp add: scenario_no_events [OF assms])
  have c: "card {i. i < 14 \<and> sales df ! i \<noteq> gen_floored scenario_config g ! i} \<le> 1"
    by (simp add: df_def)
  have i6: "(6 :: nat) < nat (periods scenario_config)"
    and i7: "(7 :: nat) < nat (periods scenario_config)" by (simp_all add: p)
  have v6: "sales df ! 6 = gen_trend scenario_config ! 6 + 30"
    unfolding df_def using s6
    by (simp add: nth_gen_floored [OF i6] s p scenario_noise scenario_trend)
  have v7: "sales df ! 7 = gen_trend scenario_config ! 7 + 40"
    unfolding df_def using s7
    by (simp add: nth_gen_floored [OF i7] s p scenario_noise scenario_trend)
  from r d6 w6 d7 w7 a6 a7 a1 e c v6 v7 show ?thesis
    by (intro exI [of _ df] exI [of _ "g\<lparr>gpos := gpos g + 14, cpos := cpos g + 1,
      upos := upos g\<rparr>"] conjI)
qed

theorem C9_scenario_witness:
  "rng_ok sample_rng
   \<and> (\<exists>df g'. generate_time_series_data scenario_config sample_rng = Inr (df, g')
     \<and> dayofweek (date df ! 6) = 5 \<and> dayofweek (date df ! 7) = 6
     \<and> length (gen_events scenario_config sample_rng) \<le> 1
     \<and> sales df ! 6 = 1990 / 13 \<and> sales df ! 7 = 2170 / 13)"
proof -
  from C9_scenario [OF sample_rng_ok] obtain df g' where
    a: "generate_time_series_data scenario_config sample_rng = Inr (df, g')"
    and b: "dayofweek (date df ! 6) = 5" and c: "dayofweek (date df ! 7) = 6"
    and d: "length (gen_events scenario_config sample_rng) \<le> 1"
    and e: "sales df ! 6 = gen_trend scenario_config ! 6 + 30"
    and f: "sales df ! 7 = gen_trend scenario_config ! 7 + 40"
    by (elim exE conjE)
  from e have e': "sales df ! 6 = 1990 / 13" by (simp add: scenario_trend)
  from f have f': "sales df ! 7 = 2170 / 13" by (simp add: scenario_trend)
  from a b c d e' f'
  have "\<exists>df g'. generate_time_series_data scenario_config sample_rng = Inr (df, g')
     \<and> dayofweek (date df ! 6) = 5 \<and> dayofweek (date df ! 7) = 6
     \<and> length (gen_events scenario_config sample_rng) \<le> 1
     \<and> sales df ! 6 = 1990 / 13 \<and> sales df ! 7 = 2170 / 13"
    by (intro exI [of _ df] exI [of _ g'] conjI)
  with sample_rng_ok show ?thesis by (rule conjI)
qed

subsection \<open>The two generators agree\<close>

lemma generate_time_series_data_error:
  assumes "\<not> config_ok cfg"
  shows "generate_time_series_data cfg g = Inl ValueError"
proof (cases "valid_date (start_date cfg) \<and> 0 \<le> periods cfg")
  case False
  then have "date_range (start_date cfg) (periods cfg) = Inl ValueError"
    by (auto simp: date_range_def)
  then show ?thesis by (simp add: generate_time_series_data_def)
next
  case True
  with assms have nl: "noise_level cfg < 0" by (simp add: config_ok_def)
  from True have d: "date_range (start_date cfg) (periods cfg) = Inr (gen_dates cfg)"
    by (simp add: date_range_def gen_dates_def)
  from True have t: "linspace 100 (100 + 100 * trend_strength cfg) (periods cfg)
      = Inr (gen_trend cfg)" by (simp add: linspace_gen_trend)
  from nl have n: "random_normal 0 (noise_level cfg * 100) (nat (periods cfg)) g
      = Inl ValueError"
    by (simp add: random_normal_def mult_less_0_iff)
  show ?thesis
    unfolding generate_time_series_data_def
    by (simp only: d t n Let_def sum.case)
qed

lemma gsd_unrounded_error:
  assumes "\<not> config_ok cfg"
  shows "gsd_unrounded cfg g = Inl ValueError"
proof (cases "valid_date (start_date cfg) \<and> 0 \<le> periods cfg")
  case False
  then have "date_range (start_date cfg) (periods cfg) = Inl ValueError"
    by (auto simp: date_range_def)
  then show ?thesis by (simp add: gsd_unrounded_def)
next
  case True
  with assms have nl: "noise_level cfg < 0" by (simp add: config_ok_def)
  from True have d: "date_range (start_date cfg) (periods cfg) = Inr (gen_dates cfg)"
    by (simp add: date_range_def gen_dates_def)
  from True have t: "linspace 100 (100 + 100 * trend_strength cfg) (periods cfg)
      = Inr (gen_trend cfg)" by (simp add: linspace_gen_trend)
  from nl have n: "random_normal 0 (noise_level cfg * 100) (nat (periods cfg)) g
      = Inl ValueError"
    by (simp add: random_normal_def mult_less_0_iff)
  show ?thesis
    unfolding gsd_unrounded_def
    by (simp only: d t n Let_def sum.case)
qed

text \<open>
  Claim C10. From one configuration and one state of the random source,
  \<^verbatim>\<open>generate_time_series_data\<close> and \<^verbatim>\<open>generate_sales_data\<close> fail alike or succeed
  alike. When they succeed, the dates agree and the primary series of
  \<^verbatim>\<open>generate_time_series_data\<close> is, value for value, the primary series of
  \<^verbatim>\<open>generate_sales_data\<close> before its final rounding; the latter function then rounds
  these values to two decimals and has added four category columns.
\<close>

theorem C10_generators_agree:
  "(case generate_time_series_data cfg g of
      Inl e \<Rightarrow> gsd_unrounded cfg g = Inl e \<and> generate_sales_data cfg g = Inl e
    | Inr (df, g1) \<Rightarrow>
        (\<exists>df' g'. gsd_unrounded cfg g = Inr (df', g')
           \<and> date df' = date df \<and> sales df' = sales df
           \<and> map fst (columns df') = map (\<lambda>c. lower c @ ''_sales'') categories
           \<and> length (columns df') = 4
           \<and> generate_sales_data cfg g = Inr (df'\<lparr>sales := map round2 (sales df)\<rparr>, g')))"
proof (cases "config_ok cfg")
  case False
  then show ?thesis
    by (simp add: generate_time_series_data_error gsd_unrounded_error generate_sales_data_def)
next
  case True
  define n where "n = nat (periods cfg)"
  define primary where
    "primary = loc_imul (gen_floored cfg g) (gen_events cfg g) (gen_factors cfg g)"
  from True have nl: "0 \<le> noise_level cfg" by (simp add: config_ok_def)
  have lt: "length (gen_trend cfg) = n" by (simp add: length_gen_trend n_def)
  have lse: "length (gts_seasonal (seasonality cfg) (gen_dates cfg) n) = n"
    by (simp add: length_gts_seasonal length_gen_dates n_def)
  from add_categories_ok [OF nl lt lse, of categories
      "\<lparr>date = gen_dates cfg, sales = primary, columns = []\<rparr>"
      "g\<lparr>gpos := gpos g + n, cpos := cpos g + 1,
          upos := upos g + length (gen_events cfg g)\<rparr>"]
  obtain df1 g1 where u: "add_categories categories (gen_trend cfg)
        (gts_seasonal (seasonality cfg) (gen_dates cfg) n) (noise_level cfg) n
        \<lparr>date = gen_dates cfg, sales = primary, columns = []\<rparr>
        (g\<lparr>gpos := gpos g + n, cpos := cpos g + 1,
           upos := upos g + length (gen_events cfg g)\<rparr>) = Inr (df1, g1)
      \<and> date df1 = gen_dates cfg \<and> sales df1 = primary
      \<and> length (columns df1) = length categories
      \<and> map fst (columns df1) = map (\<lambda>c. lower c @ ''_sales'') categories"
    by (elim exE) simp
  from u have r: "gsd_unrounded cfg g = Inr (df1, g1)"
    by (simp add: gsd_unrounded_ok [OF True] n_def primary_def)
  have "\<exists>df' g'. gsd_unrounded cfg g = Inr (df', g')
           \<and> date df' = gen_dates cfg \<and> sales df' = primary
           \<and> map fst (columns df') = map (\<lambda>c. lower c @ ''_sales'') categories
           \<and> length (columns df') = 4
           \<and> generate_sales_data cfg g = Inr (df'\<lparr>sales := map round2 primary\<rparr>, g')"
    using u r by (intro exI [of _ df1] exI [of _ g1])
      (simp add: generate_sales_data_def categories_def)
  then show ?thesis
    by (simp add: generate_time_series_data_ok [OF True] primary_def)
qed

subsection \<open>Claims on the forecaster\<close>

lemma slice_from_tail:
  "0 < h \<Longrightarrow> nat h \<le> length xs \<Longrightarrow> slice_from xs (- h) = drop (length xs - nat h) xs"
proof -
  assume h: "0 < h" and l: "nat h \<le> length xs"
  then have "nat (int (length xs) + - h) = length xs - nat h" by linarith
  with h show ?thesis by (simp add: slice_from_def)
qed

lemma slice_to_all: "0 < h \<Longrightarrow> length xs = nat h \<Longrightarrow> slice_to xs h = xs"
  by (simp add: slice_to_def)

lemma np_sub_same_length:
  "length a = length b \<Longrightarrow> np_sub a b = Inr (map (\<lambda>(x, y). x - y) (zip a b))"
  by (simp add: np_sub_def)

lemma perform_forecast_ok:
  assumes "0 < h" and "length (date df) = length (sales df)" and "nat h \<le> length (sales df)"
    and "valid_date (last (date df))" and "model (sales df) h = Inr fc"
    and "length fc = nat h"
  shows "perform_forecast model df h =
     Inr \<lparr>forecast_dates = date_range_from (next_day (last (date df))) (nat h),
          forecast_values = fc,
          mse = np_mean (map (\<lambda>x. x ^ 2) (map (\<lambda>(x, y). x - y)
                  (zip (drop (length (sales df) - nat h) (sales df)) fc))),
          mae = np_mean (map abs (map (\<lambda>(x, y). x - y)
                  (zip (drop (length (sales df) - nat h) (sales df)) fc)))\<rparr>"
proof -
  from assms(1,2,3) have ne: "date df \<noteq> []" by auto
  have d: "date_range (next_day (last (date df))) h
      = Inr (date_range_from (next_day (last (date df))) (nat h))"
    using assms(1) valid_next_day [OF assms(4)] by (simp add: date_range_def)
  have t: "slice_from (sales df) (- h) = drop (length (sales df) - nat h) (sales df)"
    by (rule slice_from_tail [OF assms(1,3)])
  have f: "slice_to fc h = fc" by (rule slice_to_all [OF assms(1,6)])
  have l: "length (drop (length (sales df) - nat h) (sales df)) = length fc"
    using assms(3,6) by simp
  show ?thesis
    unfolding perform_forecast_def
    by (simp only: assms(5) sum.case ne if_False Let_def d length_date_range_from assms(6)
        simp_thms t f np_sub_same_length [OF l])
qed


lemma sample_history_facts:
  "length (date sample_history) = length (sales sample_history)"
  "length (sales sample_history) = 20"
  "last (date sample_history) = \<lparr>year = 2023, month = 1, day = 20\<rparr>"
  "last (sales sample_history) = 119"
  by (simp_all add: sample_history_def eval_nat_numeral next_day_def daysinmonth_def
      days_in_month_def)



text \<open>
  The bound on the horizon is needed: on a history of at least two values, a horizon
  above their number makes \<^verbatim>\<open>perform_forecast\<close> raise at the metrics, whatever values
  the model forecasts.
\<close>

lemma perform_forecast_horizon_above_history:
  assumes "length (date df) = length (sales df)" and "2 \<le> length (sales df)"
    and "length (sales df) < nat h" and "valid_date (last (date df))"
    and "model (sales df) h = Inr fc" and "length fc = nat h"
  shows "perform_forecast model df h = Inl ValueError"
proof -
  from assms(3) have h: "0 < h" by simp
  from assms(1,2) have ne: "date df \<noteq> []" by auto
  have d: "date_range (next_day (last (date df))) h
      = Inr (date_range_from (next_day (last (date df))) (nat h))"
    using h valid_next_day [OF assms(4)] by (simp add: date_range_def)
  from assms(3) have "nat (int (length (sales df)) + - h) = 0" by simp
  with h have t: "slice_from (sales df) (- h) = sales df" by (simp add: slice_from_def)
  have f: "slice_to fc h = fc" by (rule slice_to_all [OF h assms(6)])
  have s: "np_sub (sales df) fc = Inl ValueError"
    using assms(2,3,6) by (simp add: np_sub_def)
  show ?thesis
    unfolding perform_forecast_def
    by (simp only: assms(5) sum.case ne if_False Let_def d length_date_range_from assms(6)
        simp_thms t f s)
qed

lemma sum_list_squares_zero_iff:
  "sum_list (map (\<lambda>x. x ^ 2) (ds :: real list)) = 0 \<longleftrightarrow> (\<forall>x \<in> set ds. x = 0)"
proof -
  have "sum_list (map (\<lambda>x. x ^ 2) ds) = 0 \<longleftrightarrow> (\<forall>y \<in> set (map (\<lambda>x. x ^ 2) ds). y = 0)"
    by (rule sum_list_nonneg_eq_0_iff) auto
  then show ?thesis by simp
qed

lemma sum_list_abs_zero_iff:
  "sum_list (map abs (ds :: real list)) = 0 \<longleftrightarrow> (\<forall>x \<in> set ds. x = 0)"
proof -
  have "sum_list (map abs ds) = 0 \<longleftrightarrow> (\<forall>y \<in> set (map abs ds). y = 0)"
    by (rule sum_list_nonneg_eq_0_iff) auto
  then show ?thesis by simp
qed

lemma differences_zero_iff:
  "length a = length b \<Longrightarrow>
   (\<forall>x \<in> set (map (\<lambda>(x, y). x - y) (zip a b)). x = (0 :: real)) \<longleftrightarrow> a = b"
  by (auto simp: list_eq_iff_zip_eq)

text \<open>
  Claim C7. When \<^verbatim>\<open>perform_forecast\<close> succeeds on a positive horizon that does not
  exceed the number of historical values, the mean squared error is the mean of the
  squared differences, and the mean absolute error the mean of the absolute
  differences, between the last \<open>horizon\<close> historical values and the forecast values,
  position by position. Both are non-negative, and each of them is 0 exactly when the
  forecast values are that historical tail.
\<close>

theorem C7_forecast_metrics:
  assumes "0 < h" and "length (date df) = length (sales df)" and "nat h \<le> length (sales df)"
    and "valid_date (last (date df))" and "model (sales df) h = Inr fc"
    and "length fc = nat h"
  shows "\<exists>r e a. perform_forecast model df h = Inr r
     \<and> forecast_values r = fc
     \<and> length (drop (length (sales df) - nat h) (sales df)) = nat h
     \<and> mse r = Some e \<and> mae r = Some a
     \<and> e = sum_list (map (\<lambda>(x, y). (x - y) ^ 2)
               (zip (drop (length (sales df) - nat h) (sales df)) fc)) / real (nat h)
     \<and> a = sum_list (map (\<lambda>(x, y). \<bar>x - y\<bar>)
               (zip (drop (length (sales df) - nat h) (sales df)) fc)) / real (nat h)
     \<and> 0 \<le> e \<and> 0 \<le> a
     \<and> (e = 0 \<longleftrightarrow> fc = drop (length (sales df) - nat h) (sales df))
     \<and> (a = 0 \<longleftrightarrow> fc = drop (length (sales df) - nat h) (sales df))"
proof -
  define tail where "tail = drop (length (sales df) - nat h) (sales df)"
  define ds where "ds = map (\<lambda>(x, y). x - y) (zip tail fc)"
  define e where "e = sum_list (map (\<lambda>x. x ^ 2) ds) / real (nat h)"
  define a where "a = sum_list (map abs ds) / real (nat h)"
  from assms(1) have n: "0 < nat h" by simp
  have lt: "length tail = nat h" using assms(3) by (simp add: tail_def)
  have lf: "length tail = length fc" using lt assms(6) by simp
  have ld: "length ds = nat h" using lt assms(6) by (simp add: ds_def)
  have ne: "ds \<noteq> []" using ld n by auto
  have r: "perform_forecast model df h =
      Inr \<lparr>forecast_dates = date_range_from (next_day (last (date df))) (nat h),
           forecast_values = fc, mse = Some e, mae = Some a\<rparr>"
    unfolding perform_forecast_ok [where model = model and df = df and h = h and fc = fc,
        OF assms] tail_def [symmetric] ds_def [symmetric]
    using ne by (simp add: np_mean_def e_def a_def ld)
  have e1: "e = sum_list (map (\<lambda>(x, y). (x - y) ^ 2) (zip tail fc)) / real (nat h)"
    by (simp add: e_def ds_def comp_def case_prod_unfold)
  have a1: "a = sum_list (map (\<lambda>(x, y). \<bar>x - y\<bar>) (zip tail fc)) / real (nat h)"
    by (simp add: a_def ds_def comp_def case_prod_unfold)
  have e0: "0 \<le> e" unfolding e_def by (intro divide_nonneg_nonneg sum_list_nonneg) auto
  have a0: "0 \<le> a" unfolding a_def by (intro divide_nonneg_nonneg sum_list_nonneg) auto
  have ez: "e = 0 \<longleftrightarrow> fc = tail"
  proof -
    have "e = 0 \<longleftrightarrow> sum_list (map (\<lambda>x. x ^ 2) ds) = 0" using n by (simp add: e_def)
    also have "\<dots> \<longleftrightarrow> (\<forall>x \<in> set ds. x = 0)" by (rule sum_list_squares_zero_iff)
    also have "\<dots> \<longleftrightarrow> tail = fc" unfolding ds_def by (rule differences_zero_iff [OF lf])
    finally show ?thesis by auto
  qed
  have az: "a = 0 \<longleftrightarrow> fc = tail"
  proof -
    have "a = 0 \<longleftrightarrow> sum_list (map abs ds) = 0" using n by (simp add: a_def)
    also have "\<dots> \<longleftrightarrow> (\<forall>x \<in> set ds. x = 0)" by (rule sum_list_abs_zero_iff)
    also have "\<dots> \<longleftrightarrow> tail = fc" unfolding ds_def by (rule differences_zero_iff [OF lf])
    finally show ?thesis by auto
  qed
  have "perform_forecast model df h =
      Inr \<lparr>forecast_dates = date_range_from (next_day (last (date df))) (nat h),
           forecast_values = fc, mse = Some e, mae = Some a\<rparr>
     \<and> forecast_values \<lparr>forecast_dates = date_range_from (next_day (last (date df))) (nat h),
           forecast_values = fc, mse = Some e, mae = Some a\<rparr> = fc
     \<and> length tail = nat h
     \<and> mse \<lparr>forecast_dates = date_range_from (next_day (last (date df))) (nat h),
           forecast_values = fc, mse = Some e, mae = Some a\<rparr> = Some e
     \<and> mae \<lparr>forecast_dates = date_range_from (next_day (last (date df))) (nat h),
           forecast_values = fc, mse = Some e, mae = Some a\<rparr> = Some a
     \<and> e = sum_list (map (\<lambda>(x, y). (x - y) ^ 2) (zip tail fc)) / real (nat h)
     \<and> a = sum_list (map (\<lambda>(x, y). \<bar>x - y\<bar>) (zip tail fc)) / real (nat h)
     \<and> 0 \<le> e \<and> 0 \<le> a \<and> (e = 0 \<longleftrightarrow> fc = tail) \<and> (a = 0 \<longleftrightarrow> fc = tail)"
    using r lt e1 a1 e0 a0 ez az by simp
  then show ?thesis unfolding tail_def by blast
qed

theorem C7_forecast_metrics_witness:
  "(0 :: int) < 3 \<and> length (date sample_history) = length (sales sample_history)
   \<and> nat 3 \<le> length (sales sample_history) \<and> valid_date (last (date sample_history))
   \<and> sample_model (sales sample_history) 3 = Inr [119, 119, 119]
   \<and> length [119, 119, 119 :: real] = nat 3
   \<and> drop (length (sales sample_history) - nat 3) (sales sample_history) = [117, 118, 119]
   \<and> (\<exists>r. perform_forecast sample_model sample_history 3 = Inr r
      \<and> mse r = Some (5 / 3) \<and> mae r = Some 1)"
proof -
  have h1: "(0 :: int) < 3" by simp
  note h2 = sample_history_facts(1)
  have h3: "nat 3 \<le> length (sales sample_history)" by (simp add: sample_history_facts)
  have h4: "valid_date (last (date sample_history))"
    by (simp add: sample_history_facts valid_date_def daysinmonth_def days_in_month_def)
  have h5: "sample_model (sales sample_history) 3 = Inr [119, 119, 119]"
    by (simp add: sample_model_def sample_history_facts eval_nat_numeral)
  have h6: "length [119, 119, 119 :: real] = nat 3" by simp
  have t: "drop (length (sales sample_history) - nat 3) (sales sample_history)
      = [117, 118, 119]"
    by (simp add: sample_history_def eval_nat_numeral)
  from C7_forecast_metrics [where model = sample_model and df = sample_history and h = 3
      and fc = "[119, 119, 119]", OF h1 h2 h3 h4 h5 h6] obtain r e a where
    a: "perform_forecast sample_model sample_history 3 = Inr r"
    and b: "mse r = Some e" and c: "mae r = Some a"
    and d: "e = sum_list (map (\<lambda>(x, y). (x - y) ^ 2)
               (zip (drop (length (sales sample_history) - nat 3) (sales sample_history))
                 [119, 119, 119])) / real (nat 3)"
    and f: "a = sum_list (map (\<lambda>(x, y). \<bar>x - y\<bar>)
               (zip (drop (length (sales sample_history) - nat 3) (sales sample_history))
                 [119, 119, 119])) / real (nat 3)"
    by (elim exE conjE)
  from d have d': "e = 5 / 3" unfolding t by simp
  from f have f': "a = 1" unfolding t by simp
  from a b c d' f'
  have "\<exists>r. perform_forecast sample_model sample_history 3 = Inr r
      \<and> mse r = Some (5 / 3) \<and> mae r = Some 1"
    by (intro exI [of _ r]) simp
  with h1 h2 h3 h4 h5 h6 t show ?thesis by (intro conjI)
qed



end
